theory Spec2Isabelle
  imports Complex_Main
begin

section \<open>The secant solver of \<^verbatim>\<open>lab-2/lab-2-hands-on/secant.ipynb\<close>\<close>

text \<open>
  The notebook defines one routine, \<^verbatim>\<open>secant(func, interval, max_iterations,
  tolerance, report_history)\<close>, and one example function \<^verbatim>\<open>f\<close>.

  Numbers: Python floats are modelled by \<^typ>\<open>real\<close>, so rounding, overflow to
  infinity and NaN are outside the model; the control flow, the comparisons and the order
  of the operations are those of the source. \<^verbatim>\<open>max_iterations\<close> and
  \<^verbatim>\<open>num_iterations\<close> are Python integers, hence \<^typ>\<open>int\<close>.

  Effects: the routine prints, calls \<^verbatim>\<open>func\<close>, and may raise. A raise is a
  value of \<open>completion\<close>; the printed lines and the arguments handed to
  \<^verbatim>\<open>func\<close> are kept, in order, in the state. \<^verbatim>\<open>func\<close> itself is a
  function of its argument alone, as the specification assumes of the function handle.
\<close>

subsection \<open>Data\<close>

datatype py_error = ValueError | AssertionError | ZeroDivisionError

text \<open>One argument of a \<^verbatim>\<open>print\<close> call; a printed line is the list of its arguments.\<close>

datatype py_arg = PStr string | PInt int

text \<open>The dictionary \<^verbatim>\<open>{'estimation': [], 'x_error': [], 'y_error': []}\<close>.\<close>

record history_dict =
  estimation :: "real list"
  x_error :: "real list"
  y_error :: "real list"

text \<open>The returned value: \<^verbatim>\<open>c\<close>, or the tuple \<^verbatim>\<open>(c, history)\<close>.\<close>

datatype py_value = Estimate real | Estimate_history real history_dict

datatype completion = Returned py_value | Raised py_error

text \<open>
  The local variables of \<^verbatim>\<open>secant\<close> that the loop changes, together with
  \<^item> \<open>stdout\<close>: the lines printed so far;
  \<^item> \<open>calls\<close>: the arguments \<^verbatim>\<open>func\<close> has been called with so far;
  \<^item> \<open>heads\<close>: the pair \<^verbatim>\<open>(a_next, b_next)\<close> found at each entry of the
    body of \<^verbatim>\<open>while True\<close> so far. This field is not a variable of the source:
    it records the iterations, one element per pass through the body.
  The variable \<^verbatim>\<open>history\<close> is bound in the source only when
  \<^verbatim>\<open>report_history\<close> holds, and is read only then; otherwise the field keeps
  its initial value.
\<close>

record state =
  num_iterations :: int
  a_next :: real
  b_next :: real
  history :: history_dict
  stdout :: "py_arg list list"
  calls :: "real list"
  heads :: "(real \<times> real) list"

datatype outcome = Continue state | Done completion state

text \<open>What a finished call leaves behind.\<close>

record run =
  completion :: completion
  printed :: "py_arg list list"
  evaluated :: "real list"
  iterated :: "(real \<times> real) list"

definition run_of :: "completion \<Rightarrow> state \<Rightarrow> run" where
  "run_of r s = \<lparr>completion = r, printed = stdout s, evaluated = calls s, iterated = heads s\<rparr>"

subsection \<open>Operations\<close>

text \<open>Python's \<^verbatim>\<open>/\<close> on floats raises \<^verbatim>\<open>ZeroDivisionError\<close> on a zero divisor.\<close>

definition py_truediv :: "real \<Rightarrow> real \<Rightarrow> py_error + real" where
  "py_truediv x y = (if y = 0 then Inl ZeroDivisionError else Inr (x / y))"

text \<open>The three \<^verbatim>\<open>append\<close> calls on the history.\<close>

definition history_append :: "history_dict \<Rightarrow> real \<Rightarrow> real \<Rightarrow> real \<Rightarrow> history_dict" where
  "history_append h c x_err y_err =
     h\<lparr>estimation := estimation h @ [c],
       x_error := x_error h @ [x_err],
       y_error := y_error h @ [y_err]\<rparr>"

text \<open>
  One pass through the body of \<^verbatim>\<open>while True\<close>. \<open>x_err\<close> and \<open>y_err\<close> are the
  source's locals \<^verbatim>\<open>x_error\<close> and \<^verbatim>\<open>y_error\<close>. The calls of
  \<^verbatim>\<open>func\<close> are logged in the order Python evaluates them: \<^verbatim>\<open>func(a_next)\<close>,
  \<^verbatim>\<open>func(b_next)\<close>, \<^verbatim>\<open>func(a_next)\<close> for the step, \<^verbatim>\<open>func(c)\<close>
  for the residual, then \<^verbatim>\<open>func(c)\<close>, \<^verbatim>\<open>func(a_next)\<close> and, in the
  \<^verbatim>\<open>elif\<close>, \<^verbatim>\<open>func(b_next)\<close> for the sign test.
\<close>

definition secant_body :: "(real \<Rightarrow> real) \<Rightarrow> int \<Rightarrow> real \<Rightarrow> bool \<Rightarrow> state \<Rightarrow> outcome" where
  "secant_body func max_iterations tolerance report_history s =
     (let a = a_next s;
          b = b_next s;
          s1 = s\<lparr>calls := calls s @ [a, b, a], heads := heads s @ [(a, b)]\<rparr>
      in case py_truediv (- func a * (b - a)) (func b - func a) of
           Inl e \<Rightarrow> Done (Raised e) s1
         | Inr d_x \<Rightarrow>
            (let c = a + d_x;
                 x_err = \<bar>d_x\<bar>;
                 y_err = \<bar>func c\<bar>;
                 s2 = s1\<lparr>calls := calls s1 @ [c]\<rparr>;
                 s3 = (if report_history
                       then s2\<lparr>history := history_append (history s2) c x_err y_err\<rparr>
                       else s2);
                 ret = (if report_history then Estimate_history c (history s3) else Estimate c)
             in if x_err < tolerance \<or> y_err < tolerance then
                  Done (Returned ret)
                    (s3\<lparr>stdout := stdout s3 @
                       [[PStr ''Found solution after'', PInt (num_iterations s3),
                         PStr ''iterations.'']]\<rparr>)
                else if num_iterations s3 < max_iterations then
                  (let s4 = s3\<lparr>num_iterations := num_iterations s3 + 1\<rparr>;
                       value_of_func_c = func c;
                       s5 = s4\<lparr>calls := calls s4 @ [c, a]\<rparr>
                   in if func a * value_of_func_c < 0 then
                        Continue (s5\<lparr>a_next := a, b_next := c\<rparr>)
                      else
                        (let s6 = s5\<lparr>calls := calls s5 @ [b]\<rparr>
                         in if value_of_func_c * func b < 0 then
                              Continue (s6\<lparr>a_next := c, b_next := b\<rparr>)
                            else Done (Returned ret) s6))
                else
                  Done (Returned ret)
                    (s3\<lparr>stdout := stdout s3 @
                       [[PStr ''Terminate since reached the maximum iterations.'']]\<rparr>)))"

text \<open>
  The loop \<^verbatim>\<open>while True\<close>: the body is repeated until it returns or raises. Each
  repetition raises \<^verbatim>\<open>num_iterations\<close> towards \<^verbatim>\<open>max_iterations\<close>.
\<close>

function secant_loop :: "(real \<Rightarrow> real) \<Rightarrow> int \<Rightarrow> real \<Rightarrow> bool \<Rightarrow> state \<Rightarrow> run" where
  "secant_loop func max_iterations tolerance report_history s =
     (case secant_body func max_iterations tolerance report_history s of
        Continue s' \<Rightarrow> secant_loop func max_iterations tolerance report_history s'
      | Done r s' \<Rightarrow> run_of r s')"
  by pat_completeness auto
termination
  by (relation "measure (\<lambda>(func, max_iterations, tolerance, report_history, s).
                           nat (max_iterations - num_iterations s))")
     (auto simp: secant_body_def py_truediv_def Let_def split: if_splits)

declare secant_loop.simps [simp del]

text \<open>
  The state at the first entry of the loop, after the assertion has called
  \<^verbatim>\<open>func(a)\<close> and \<^verbatim>\<open>func(b)\<close> and the initial conditions are set.
\<close>

definition initial :: "real \<Rightarrow> real \<Rightarrow> state" where
  "initial a b =
     \<lparr>num_iterations = 0, a_next = a, b_next = b,
      history = \<lparr>estimation = [], x_error = [], y_error = []\<rparr>,
      stdout = [], calls = [a, b], heads = []\<rparr>"

text \<open>
  The routine: unpack the interval (any length but two raises \<^verbatim>\<open>ValueError\<close>),
  check the assertion, initialise, loop. The \<^verbatim>\<open>assert\<close> statement is executed,
  as it is unless Python runs with \<^verbatim>\<open>-O\<close>.
\<close>

definition secant :: "(real \<Rightarrow> real) \<Rightarrow> real list \<Rightarrow> int \<Rightarrow> real \<Rightarrow> bool \<Rightarrow> run" where
  "secant func interval max_iterations tolerance report_history =
     (case interval of
        [a, b] \<Rightarrow>
          if func a * func b < 0 then
            secant_loop func max_iterations tolerance report_history (initial a b)
          else
            \<lparr>completion = Raised AssertionError, printed = [], evaluated = [a, b],
             iterated = []\<rparr>
      | _ \<Rightarrow>
          \<lparr>completion = Raised ValueError, printed = [], evaluated = [], iterated = []\<rparr>)"

text \<open>The example function of the notebook, \<^verbatim>\<open>def f(x): return x**2 - x - 1\<close>.\<close>

definition f :: "real \<Rightarrow> real" where
  "f x = x ^ 2 - x - 1"

subsection \<open>Further inputs\<close>

text \<open>
  Two more functions, used as concrete inputs next to the notebook's \<open>f\<close>: a line whose
  root the first secant step hits exactly, and a cubic.
\<close>

definition g :: "real \<Rightarrow> real" where
  "g x = 2 * x - 1"

definition cubic :: "real \<Rightarrow> real" where
  "cubic x = x ^ 3 - x ^ 2 - 3"

subsection \<open>The formulas of the specification\<close>

text \<open>
  The secant step \<open>dx\<close>, the new estimate \<open>c\<close> and the stopping rule in the words of
  the specification, on a pair \<open>p = (a_next, b_next)\<close> of current points. The properties
  below compare the loop with them.
\<close>

definition spec_dx :: "(real \<Rightarrow> real) \<Rightarrow> real \<times> real \<Rightarrow> real" where
  "spec_dx func p = - func (fst p) * (snd p - fst p) / (func (snd p) - func (fst p))"

definition spec_c :: "(real \<Rightarrow> real) \<Rightarrow> real \<times> real \<Rightarrow> real" where
  "spec_c func p = fst p + spec_dx func p"

definition spec_x_error :: "(real \<Rightarrow> real) \<Rightarrow> real \<times> real \<Rightarrow> real" where
  "spec_x_error func p = \<bar>spec_dx func p\<bar>"

definition spec_y_error :: "(real \<Rightarrow> real) \<Rightarrow> real \<times> real \<Rightarrow> real" where
  "spec_y_error func p = \<bar>func (spec_c func p)\<bar>"

definition spec_stop :: "(real \<Rightarrow> real) \<Rightarrow> real \<Rightarrow> real \<times> real \<Rightarrow> bool" where
  "spec_stop func tolerance p =
     (spec_x_error func p < tolerance \<or> spec_y_error func p < tolerance)"

text \<open>The two lines the routine can print.\<close>

definition found_line :: "int \<Rightarrow> py_arg list" where
  "found_line n = [PStr ''Found solution after'', PInt n, PStr ''iterations.'']"

definition exhausted_line :: "py_arg list" where
  "exhausted_line = [PStr ''Terminate since reached the maximum iterations.'']"

text \<open>The value the routine returns for an estimate \<open>c\<close> and a history \<open>h\<close>.\<close>

definition returned_value :: "bool \<Rightarrow> real \<Rightarrow> history_dict \<Rightarrow> py_value" where
  "returned_value report_history c h =
     (if report_history then Estimate_history c h else Estimate c)"

text \<open>The estimate in a returned value of either shape.\<close>

fun estimate_of :: "py_value \<Rightarrow> real" where
  "estimate_of (Estimate c) = c"
| "estimate_of (Estimate_history c h) = c"

subsection \<open>Invariant of the loop\<close>

text \<open>The history that the pairs \<open>ps\<close> of the iterations give by the formulas above.\<close>

definition history_of :: "(real \<Rightarrow> real) \<Rightarrow> (real \<times> real) list \<Rightarrow> history_dict" where
  "history_of func ps =
     \<lparr>estimation = map (spec_c func) ps, x_error = map (spec_x_error func) ps,
      y_error = map (spec_y_error func) ps\<rparr>"

text \<open>
  What holds of the state at every entry of the loop body in a call whose assertion
  passed, and what then holds of the finished run.
\<close>

definition loop_inv :: "(real \<Rightarrow> real) \<Rightarrow> int \<Rightarrow> real \<Rightarrow> bool \<Rightarrow> state \<Rightarrow> bool" where
  "loop_inv func m tol rh s \<longleftrightarrow>
     func (a_next s) * func (b_next s) < 0
     \<and> (\<forall>p \<in> set (heads s). func (fst p) * func (snd p) < 0)
     \<and> (\<forall>p \<in> set (heads s). \<not> spec_stop func tol p)
     \<and> int (length (heads s)) = num_iterations s
     \<and> num_iterations s \<le> max m 0
     \<and> stdout s = []
     \<and> history s = history_of func (if rh then heads s else [])"

definition run_post :: "(real \<Rightarrow> real) \<Rightarrow> int \<Rightarrow> real \<Rightarrow> bool \<Rightarrow> run \<Rightarrow> bool" where
  "run_post func m tol rh r \<longleftrightarrow>
     iterated r \<noteq> []
     \<and> (\<forall>p \<in> set (iterated r). func (fst p) * func (snd p) < 0)
     \<and> (\<forall>p \<in> set (butlast (iterated r)). \<not> spec_stop func tol p)
     \<and> int (length (iterated r)) \<le> max m 0 + 1
     \<and> completion r =
         Returned (returned_value rh (spec_c func (last (iterated r)))
                    (history_of func (iterated r)))
     \<and> printed r =
         (if spec_stop func tol (last (iterated r))
          then [found_line (int (length (iterated r)) - 1)]
          else if int (length (iterated r)) - 1 < m then []
          else [exhausted_line])"

section \<open>Properties\<close>

subsection \<open>One pass through the loop body\<close>

lemmas body_defs = secant_body_def py_truediv_def Let_def spec_dx_def spec_c_def
  spec_x_error_def spec_y_error_def spec_stop_def found_line_def exhausted_line_def
  returned_value_def

lemma secant_body_raised:
  assumes "secant_body func m tol rh s = Done (Raised e) s'"
  shows "e = ZeroDivisionError \<and> func (b_next s) = func (a_next s)"
  using assms by (auto simp: body_defs split: if_splits)

lemma secant_body_heads:
  assumes "secant_body func m tol rh s = Continue s' \<or> secant_body func m tol rh s = Done r s'"
  shows "heads s' = heads s @ [(a_next s, b_next s)]"
  using assms by (auto simp: body_defs split: if_splits)

lemma secant_body_history:
  assumes "secant_body func m tol rh s = Continue s'
           \<or> secant_body func m tol rh s = Done (Returned v) s'"
  shows "history s' =
    (if rh then history_append (history s) (spec_c func (a_next s, b_next s))
                 (spec_x_error func (a_next s, b_next s)) (spec_y_error func (a_next s, b_next s))
     else history s)"
  using assms by (auto simp: body_defs split: if_splits)

lemma secant_body_returned:
  assumes "secant_body func m tol rh s = Done (Returned v) s'"
  shows "v = returned_value rh (spec_c func (a_next s, b_next s)) (history s')
    \<and> func (b_next s) \<noteq> func (a_next s)
    \<and> stdout s' = stdout s @
         (if spec_stop func tol (a_next s, b_next s) then [found_line (num_iterations s)]
          else if num_iterations s < m then []
          else [exhausted_line])"
  using assms by (auto simp: body_defs split: if_splits)

lemma secant_body_continue:
  assumes "secant_body func m tol rh s = Continue s'"
  shows "\<not> spec_stop func tol (a_next s, b_next s)
    \<and> num_iterations s < m
    \<and> num_iterations s' = num_iterations s + 1
    \<and> stdout s' = stdout s
    \<and> func (a_next s') * func (b_next s') < 0
    \<and> (a_next s', b_next s') =
        (if func (a_next s) * func (spec_c func (a_next s, b_next s)) < 0
         then (a_next s, spec_c func (a_next s, b_next s))
         else (spec_c func (a_next s, b_next s), b_next s))"
  using assms by (auto simp: body_defs split: if_splits)

subsection \<open>The loop and the whole call\<close>

lemma secant_loop_Done:
  assumes "secant_body func m tol rh s = Done r s'"
  shows "secant_loop func m tol rh s = run_of r s'"
  by (subst secant_loop.simps) (simp add: assms)

lemma secant_loop_Continue:
  assumes "secant_body func m tol rh s = Continue s'"
  shows "secant_loop func m tol rh s = secant_loop func m tol rh s'"
  by (subst secant_loop.simps) (simp add: assms)

lemma secant_loop_rule:
  assumes "I s"
    and "\<And>s s'. I s \<Longrightarrow> secant_body func m tol rh s = Continue s' \<Longrightarrow> I s'"
    and "\<And>s r s'. I s \<Longrightarrow> secant_body func m tol rh s = Done r s' \<Longrightarrow> Q (run_of r s')"
  shows "Q (secant_loop func m tol rh s)"
  using assms
proof (induction func m tol rh s rule: secant_loop.induct)
  case (1 func m tol rh s)
  show ?case
  proof (cases "secant_body func m tol rh s")
    case (Continue s')
    have "secant_loop func m tol rh s = secant_loop func m tol rh s'"
      by (rule secant_loop_Continue [OF Continue])
    moreover have "I s'"
      using "1.prems"(1,2) Continue by blast
    ultimately show ?thesis
      using "1.IH" [OF Continue] "1.prems"(2,3) by simp
  next
    case (Done r s')
    have "secant_loop func m tol rh s = run_of r s'"
      by (rule secant_loop_Done [OF Done])
    then show ?thesis
      using "1.prems"(1,3) Done by simp
  qed
qed

lemma history_of_snoc:
  "history_append (history_of func ps) (spec_c func p) (spec_x_error func p) (spec_y_error func p)
   = history_of func (ps @ [p])"
  by (simp add: history_of_def history_append_def)

lemma loop_inv_step:
  assumes "loop_inv func m tol rh s" and "secant_body func m tol rh s = Continue s'"
  shows "loop_inv func m tol rh s'"
proof -
  note c = secant_body_continue [OF assms(2)]
  have h: "heads s' = heads s @ [(a_next s, b_next s)]"
    using secant_body_heads [of func m tol rh s s'] assms(2) by simp
  have hist: "history s' = (if rh then history_append (history s) (spec_c func (a_next s, b_next s))
                 (spec_x_error func (a_next s, b_next s)) (spec_y_error func (a_next s, b_next s))
     else history s)"
    using secant_body_history [of func m tol rh s s'] assms(2) by simp
  show ?thesis
    using assms(1) c h hist
    by (auto simp: loop_inv_def history_of_snoc)
qed

lemma loop_inv_done:
  assumes "loop_inv func m tol rh s" and "secant_body func m tol rh s = Done r s'"
  shows "run_post func m tol rh (run_of r s')"
proof -
  have h: "heads s' = heads s @ [(a_next s, b_next s)]"
    using secant_body_heads [of func m tol rh s s'] assms(2) by simp
  have ne: "func (b_next s) \<noteq> func (a_next s)"
    using assms(1) by (auto simp: loop_inv_def mult_less_0_iff)
  then obtain v where r: "r = Returned v"
    using secant_body_raised [of func m tol rh s] assms(2) by (cases r) auto
  note d = secant_body_returned [OF assms(2) [unfolded r]]
  have hist: "history s' = (if rh then history_append (history s) (spec_c func (a_next s, b_next s))
                 (spec_x_error func (a_next s, b_next s)) (spec_y_error func (a_next s, b_next s))
     else history s)"
    using secant_body_history [of func m tol rh s s'] assms(2) r by simp
  show ?thesis
    using assms(1) d h hist r
    by (auto simp: loop_inv_def run_post_def run_of_def history_of_snoc returned_value_def)
qed

lemma secant_loop_post:
  assumes "loop_inv func m tol rh s"
  shows "run_post func m tol rh (secant_loop func m tol rh s)"
  using assms
  by (rule secant_loop_rule [where I = "loop_inv func m tol rh"])
     (auto intro: loop_inv_step loop_inv_done)

lemma secant_post:
  assumes "func a * func b < 0"
  shows "run_post func m tol rh (secant func [a, b] m tol rh)"
  using assms
  by (simp add: secant_def, intro secant_loop_post)
     (simp add: loop_inv_def history_of_def initial_def)

lemmas run_defs = secant_def initial_def secant_loop.simps secant_body_def py_truediv_def
  Let_def run_of_def history_append_def f_def g_def cubic_def power2_eq_square
  power3_eq_cube

lemma secant_returned_interval:
  assumes "completion (secant func interval m tol rh) = Returned v"
  shows "\<exists>a b. interval = [a, b] \<and> func a * func b < 0"
  using assms
  by (auto simp: secant_def split: list.splits if_splits)

lemma secant_returned_post:
  assumes "completion (secant func interval m tol rh) = Returned v"
  shows "run_post func m tol rh (secant func interval m tol rh)"
  using secant_returned_interval [OF assms] secant_post by blast

lemma found_line_neq:
  "found_line n \<noteq> exhausted_line" "exhausted_line \<noteq> found_line n"
  "found_line n \<noteq> []" "[] \<noteq> found_line n"
  by (simp_all add: found_line_def exhausted_line_def)

lemma estimate_of_returned_value [simp]:
  "estimate_of (returned_value report_history c h) = c"
  by (simp add: returned_value_def)

text \<open>
  A call never divides by zero: the pair of every iteration has values of opposite sign, so
  the step of no pass of any call has the denominator \<open>f(b_next) - f(a_next) = 0\<close>. The
  source has no test of the denominator; what \<^verbatim>\<open>/\<close> would do there is the
  operands' matter (Python floats raise), and no call gets there.
\<close>

lemma secant_never_divides_by_zero:
  "completion (secant func interval max_iterations tolerance report_history)
     \<noteq> Raised ZeroDivisionError
   \<and> (\<forall>p \<in> set (iterated (secant func interval max_iterations tolerance report_history)).
         func (snd p) \<noteq> func (fst p))"
proof (cases "\<exists>a b. interval = [a, b] \<and> func a * func b < 0")
  case True
  then obtain a b where i: "interval = [a, b]" and "func a * func b < 0"
    by blast
  then have post: "run_post func max_iterations tolerance report_history
      (secant func interval max_iterations tolerance report_history)"
    by (simp add: secant_post)
  have "func (snd p) \<noteq> func (fst p)"
    if "p \<in> set (iterated (secant func interval max_iterations tolerance report_history))"
    for p
  proof
    assume e: "func (snd p) = func (fst p)"
    have "func (fst p) * func (snd p) < 0"
      using post that by (simp add: run_post_def)
    then have "func (fst p) * func (fst p) < 0"
      by (simp add: e)
    then show False
      by (auto simp: mult_less_0_iff)
  qed
  then show ?thesis
    using post by (simp add: run_post_def)
next
  case False
  then show ?thesis
    by (auto simp: secant_def split: list.splits)
qed

subsection \<open>Concrete runs\<close>

lemma run_f_0: "secant f [1, 2] 0 (1 / 10 ^ 7) True =
  \<lparr>completion = Returned (Estimate_history (3/2)
     \<lparr>estimation = [3/2], x_error = [1/2], y_error = [1/4]\<rparr>),
   printed = [[PStr ''Terminate since reached the maximum iterations.'']],
   evaluated = [1, 2, 1, 2, 1, 3/2],
   iterated = [(1, 2)]\<rparr>"
  by (simp add: run_defs)

lemma run_f_1: "secant f [1, 2] 1 (1 / 10 ^ 7) True =
  \<lparr>completion = Returned (Estimate_history (8/5)
     \<lparr>estimation = [3/2, 8/5], x_error = [1/2, 1/10], y_error = [1/4, 1/25]\<rparr>),
   printed = [[PStr ''Terminate since reached the maximum iterations.'']],
   evaluated = [1, 2, 1, 2, 1, 3/2, 3/2, 1, 2, 3/2, 2, 3/2, 8/5],
   iterated = [(1, 2), (3/2, 2)]\<rparr>"
  by (simp add: run_defs)

lemma run_f_5: "secant f [1, 2] 5 (1 / 10 ^ 7) False =
  \<lparr>completion = Returned (Estimate (377 / 233)),
   printed = [[PStr ''Terminate since reached the maximum iterations.'']],
   evaluated =
      [1, 2, 1, 2, 1, 3 / 2, 3 / 2, 1, 2, 3 / 2, 2, 3 / 2, 8 / 5, 8 / 5,
       3 / 2, 2, 8 / 5, 2, 8 / 5, 21 / 13, 21 / 13, 8 / 5, 2, 21 / 13, 2,
       21 / 13, 55 / 34, 55 / 34, 21 / 13, 2, 55 / 34, 2, 55 / 34, 144 / 89,
       144 / 89, 55 / 34, 2, 144 / 89, 2, 144 / 89, 377 / 233],
   iterated = [(1, 2), (3 / 2, 2), (8 / 5, 2), (21 / 13, 2), (55 / 34, 2), (144 / 89, 2)]\<rparr>"
  by (simp add: run_defs)

lemma run_f_found: "secant f [1, 2] 5 (1 / 10) False =
  \<lparr>completion = Returned (Estimate (8/5)),
   printed = [[PStr ''Found solution after'', PInt 1, PStr ''iterations.'']],
   evaluated = [1, 2, 1, 2, 1, 3/2, 3/2, 1, 2, 3/2, 2, 3/2, 8/5],
   iterated = [(1, 2), (3/2, 2)]\<rparr>"
  by (simp add: run_defs)

lemma run_f_found_history: "secant f [1, 2] 5 (1 / 10) True =
  \<lparr>completion = Returned (Estimate_history (8/5)
     \<lparr>estimation = [3/2, 8/5], x_error = [1/2, 1/10], y_error = [1/4, 1/25]\<rparr>),
   printed = [[PStr ''Found solution after'', PInt 1, PStr ''iterations.'']],
   evaluated = [1, 2, 1, 2, 1, 3/2, 3/2, 1, 2, 3/2, 2, 3/2, 8/5],
   iterated = [(1, 2), (3/2, 2)]\<rparr>"
  by (simp add: run_defs)

lemma run_f_wide: "secant f [- 2, 3/2] 1 (1 / 10 ^ 7) True =
  \<lparr>completion = Returned (Estimate_history 1
     \<lparr>estimation = [4/3, 1], x_error = [10/3, 3], y_error = [5/9, 1]\<rparr>),
   printed = [[PStr ''Terminate since reached the maximum iterations.'']],
   evaluated = [- 2, 3/2, - 2, 3/2, - 2, 4/3, 4/3, - 2, - 2, 4/3, - 2, 1],
   iterated = [(- 2, 3/2), (- 2, 4/3)]\<rparr>"
  by (simp add: run_defs)

text \<open>
  A call that ends by the stopping rule on the step size alone: the last residual,
  \<open>25/8\<close>, is larger than the one before it.
\<close>

lemma run_cubic: "secant cubic [- 1, 3] 5 1 True =
  \<lparr>completion = Returned (Estimate_history (1/2)
     \<lparr>estimation = [0, 1/2], x_error = [1, 1/2], y_error = [3, 25/8]\<rparr>),
   printed = [[PStr ''Found solution after'', PInt 1, PStr ''iterations.'']],
   evaluated = [- 1, 3, - 1, 3, - 1, 0, 0, - 1, 3, 0, 3, 0, 1/2],
   iterated = [(- 1, 3), (0, 3)]\<rparr>"
  by (simp add: run_defs)

subsection \<open>The claims\<close>

text \<open>
  C1. In every iteration of a call that returns, the secant step is
  \<open>dx = - f(a_next) * (b_next - a_next) / (f(b_next) - f(a_next))\<close>, the new estimate is
  \<open>c = a_next + dx\<close>, and \<open>x_error = |dx|\<close>, \<open>y_error = |f(c)|\<close>: the history holds,
  for the pair of each iteration in turn, exactly these three values, and the returned
  estimate is the \<open>c\<close> of the last iteration.
\<close>

theorem secant_iteration_formulas:
  assumes "completion (secant func interval max_iterations tolerance report_history) = Returned v"
  shows "iterated (secant func interval max_iterations tolerance report_history) \<noteq> []
    \<and> (\<forall>p \<in> set (iterated (secant func interval max_iterations tolerance report_history)).
          func (snd p) - func (fst p) \<noteq> 0)
    \<and> v = returned_value report_history
          (spec_c func (last (iterated (secant func interval max_iterations tolerance report_history))))
          \<lparr>estimation = map (spec_c func)
             (iterated (secant func interval max_iterations tolerance report_history)),
           x_error = map (spec_x_error func)
             (iterated (secant func interval max_iterations tolerance report_history)),
           y_error = map (spec_y_error func)
             (iterated (secant func interval max_iterations tolerance report_history))\<rparr>"
proof -
  let ?ps = "iterated (secant func interval max_iterations tolerance report_history)"
  have post: "run_post func max_iterations tolerance report_history
                (secant func interval max_iterations tolerance report_history)"
    using assms by (rule secant_returned_post)
  have "func (snd p) - func (fst p) \<noteq> 0" if "p \<in> set ?ps" for p
  proof
    assume "func (snd p) - func (fst p) = 0"
    then have e: "func (snd p) = func (fst p)"
      by simp
    have "func (fst p) * func (snd p) < 0"
      using post that by (simp add: run_post_def)
    then have "func (fst p) * func (fst p) < 0"
      by (simp add: e)
    then show False
      by (auto simp: mult_less_0_iff)
  qed
  then show ?thesis
    using post assms by (simp add: run_post_def history_of_def)
qed

theorem secant_iteration_formulas_witness:
  "completion (secant f [1, 2] 1 (1 / 10 ^ 7) True) = Returned (Estimate_history (8/5)
     \<lparr>estimation = [3/2, 8/5], x_error = [1/2, 1/10], y_error = [1/4, 1/25]\<rparr>)
   \<and> iterated (secant f [1, 2] 1 (1 / 10 ^ 7) True) = [(1, 2), (3/2, 2)]
   \<and> f 2 - f 1 \<noteq> 0 \<and> f 2 - f (3/2) \<noteq> 0
   \<and> Estimate_history (8/5)
       \<lparr>estimation = [3/2, 8/5], x_error = [1/2, 1/10], y_error = [1/4, 1/25]\<rparr>
     = returned_value True (spec_c f (3/2, 2))
         \<lparr>estimation = map (spec_c f) [(1, 2), (3/2, 2)],
          x_error = map (spec_x_error f) [(1, 2), (3/2, 2)],
          y_error = map (spec_y_error f) [(1, 2), (3/2, 2)]\<rparr>"
proof -
  have c: "completion (secant f [1, 2] 1 (1 / 10 ^ 7) True) = Returned (Estimate_history (8/5)
     \<lparr>estimation = [3/2, 8/5], x_error = [1/2, 1/10], y_error = [1/4, 1/25]\<rparr>)"
    unfolding run_f_1 by simp
  from secant_iteration_formulas [OF c] c show ?thesis
    unfolding run_f_1 by simp
qed

text \<open>
  C2, as stated, fails: a call also returns the current estimate when neither error is
  below the tolerance. With \<open>max_iterations = 0\<close> the first pass on \<open>f\<close> and
  \<open>[1, 2]\<close> returns \<open>c = 3/2\<close> with \<open>x_error = 1/2\<close> and \<open>y_error = 1/4\<close>.
\<close>

theorem secant_returns_without_tolerance:
  "completion (secant f [1, 2] 0 (1 / 10 ^ 7) True) = Returned (Estimate_history (3/2)
     \<lparr>estimation = [3/2], x_error = [1/2], y_error = [1/4]\<rparr>)
   \<and> \<not> ((1/2 :: real) < 1 / 10 ^ 7 \<or> (1/4 :: real) < 1 / 10 ^ 7)"
  unfolding run_f_0 by simp

text \<open>
  C2, amended. In a call that returns, the returned estimate is the \<open>c\<close> of the last
  iteration; the stopping rule \<open>x_error < tolerance \<or> y_error < tolerance\<close> holds in no
  iteration before the last (the loop goes on only when neither criterion is met), and it
  holds in the last iteration exactly when the call ends by that rule, which is when it
  prints \<open>Found solution after n iterations.\<close> with \<open>n\<close> the number of iterations
  before the last.
\<close>

theorem secant_stopping_rule:
  assumes "completion (secant func interval max_iterations tolerance report_history) = Returned v"
  shows "estimate_of v
        = spec_c func (last (iterated (secant func interval max_iterations tolerance report_history)))
    \<and> (\<forall>p \<in> set (butlast (iterated (secant func interval max_iterations tolerance report_history))).
            \<not> spec_stop func tolerance p)
    \<and> (spec_stop func tolerance
          (last (iterated (secant func interval max_iterations tolerance report_history)))
        \<longleftrightarrow> printed (secant func interval max_iterations tolerance report_history)
            = [found_line (int (length (iterated
                 (secant func interval max_iterations tolerance report_history))) - 1)])"
  using secant_returned_post [OF assms] assms
  by (simp add: run_post_def found_line_neq)

theorem secant_stopping_rule_witness:
  "completion (secant f [1, 2] 5 (1 / 10) False) = Returned (Estimate (8/5))
   \<and> iterated (secant f [1, 2] 5 (1 / 10) False) = [(1, 2), (3/2, 2)]
   \<and> spec_c f (3/2, 2) = 8/5
   \<and> \<not> spec_stop f (1 / 10) (1, 2)
   \<and> spec_stop f (1 / 10) (3/2, 2)
   \<and> printed (secant f [1, 2] 5 (1 / 10) False) = [found_line 1]"
proof -
  have c: "completion (secant f [1, 2] 5 (1 / 10) False) = Returned (Estimate (8/5))"
    unfolding run_f_found by simp
  from secant_stopping_rule [OF c] c show ?thesis
    unfolding run_f_found by (simp add: found_line_def)
qed

text \<open>
  C3. When \<open>f(a) * f(b) \<ge> 0\<close> the call raises the assertion's error (the
  specification's \<open>PreconditionError\<close>): nothing is returned, no iteration has run,
  nothing is printed, and \<open>func\<close> has been called on \<open>a\<close> and on \<open>b\<close> only.
\<close>

theorem secant_precondition_violation:
  assumes "0 \<le> func a * func b"
  shows "secant func [a, b] max_iterations tolerance report_history =
    \<lparr>completion = Raised AssertionError, printed = [], evaluated = [a, b], iterated = []\<rparr>"
  using assms by (simp add: secant_def)

theorem secant_precondition_violation_witness:
  "0 \<le> f 2 * f 3
   \<and> secant f [2, 3] 5 (1 / 10 ^ 7) True =
       \<lparr>completion = Raised AssertionError, printed = [], evaluated = [2, 3], iterated = []\<rparr>"
proof -
  have h: "0 \<le> f 2 * f 3"
    by (simp add: f_def)
  from secant_precondition_violation [of f 2 3 5 "1 / 10 ^ 7" True, OF h] h show ?thesis
    by simp
qed

text \<open>
  C4. In a pass where the division is defined, the stopping rule is not met and
  \<open>num_iterations < max_iterations\<close>: the next pair is \<open>(a_next, c)\<close> when
  \<open>f(a_next) * f(c) < 0\<close>, else \<open>(c, b_next)\<close> when \<open>f(c) * f(b_next) < 0\<close>, and
  otherwise the loop ends there: it returns \<open>c\<close>, raises nothing and prints nothing.
\<close>

theorem secant_next_pair:
  assumes "func (b_next s) \<noteq> func (a_next s)"
    and "\<not> spec_stop func tolerance (a_next s, b_next s)"
    and "num_iterations s < max_iterations"
  shows "(func (a_next s) * func (spec_c func (a_next s, b_next s)) < 0 \<longrightarrow>
            (\<exists>s'. secant_body func max_iterations tolerance report_history s = Continue s'
               \<and> a_next s' = a_next s \<and> b_next s' = spec_c func (a_next s, b_next s)))
    \<and> (\<not> func (a_next s) * func (spec_c func (a_next s, b_next s)) < 0
         \<and> func (spec_c func (a_next s, b_next s)) * func (b_next s) < 0 \<longrightarrow>
            (\<exists>s'. secant_body func max_iterations tolerance report_history s = Continue s'
               \<and> a_next s' = spec_c func (a_next s, b_next s) \<and> b_next s' = b_next s))
    \<and> (\<not> func (a_next s) * func (spec_c func (a_next s, b_next s)) < 0
         \<and> \<not> func (spec_c func (a_next s, b_next s)) * func (b_next s) < 0 \<longrightarrow>
            secant_loop func max_iterations tolerance report_history s =
              \<lparr>completion = Returned (returned_value report_history
                  (spec_c func (a_next s, b_next s))
                  (if report_history
                   then history_append (history s) (spec_c func (a_next s, b_next s))
                          (spec_x_error func (a_next s, b_next s))
                          (spec_y_error func (a_next s, b_next s))
                   else history s)),
               printed = stdout s,
               evaluated = calls s @ [a_next s, b_next s, a_next s,
                 spec_c func (a_next s, b_next s), spec_c func (a_next s, b_next s),
                 a_next s, b_next s],
               iterated = heads s @ [(a_next s, b_next s)]\<rparr>)"
proof (intro conjI impI)
  assume "func (a_next s) * func (spec_c func (a_next s, b_next s)) < 0"
  with assms
  show "\<exists>s'. secant_body func max_iterations tolerance report_history s = Continue s'
          \<and> a_next s' = a_next s \<and> b_next s' = spec_c func (a_next s, b_next s)"
    by (simp add: body_defs)
next
  assume "\<not> func (a_next s) * func (spec_c func (a_next s, b_next s)) < 0
          \<and> func (spec_c func (a_next s, b_next s)) * func (b_next s) < 0"
  with assms
  show "\<exists>s'. secant_body func max_iterations tolerance report_history s = Continue s'
          \<and> a_next s' = spec_c func (a_next s, b_next s) \<and> b_next s' = b_next s"
    by (simp add: body_defs)
next
  let ?c = "spec_c func (a_next s, b_next s)"
  let ?h = "if report_history
            then history_append (history s) ?c (spec_x_error func (a_next s, b_next s))
                   (spec_y_error func (a_next s, b_next s))
            else history s"
  assume "\<not> func (a_next s) * func ?c < 0 \<and> \<not> func ?c * func (b_next s) < 0"
  with assms
  have "secant_body func max_iterations tolerance report_history s =
    Done (Returned (returned_value report_history ?c ?h))
      (s\<lparr>num_iterations := num_iterations s + 1,
         history := ?h,
         calls := calls s @ [a_next s, b_next s, a_next s, ?c, ?c, a_next s, b_next s],
         heads := heads s @ [(a_next s, b_next s)]\<rparr>)"
    by (simp add: body_defs)
  from secant_loop_Done [OF this]
  show "secant_loop func max_iterations tolerance report_history s =
     \<lparr>completion = Returned (returned_value report_history ?c ?h),
      printed = stdout s,
      evaluated = calls s @ [a_next s, b_next s, a_next s, ?c, ?c, a_next s, b_next s],
      iterated = heads s @ [(a_next s, b_next s)]\<rparr>"
    by (simp add: run_of_def)
qed

theorem secant_next_pair_witness:
  "(f 2 \<noteq> f 1 \<and> \<not> spec_stop f (1 / 10 ^ 7) (1, 2) \<and> (0 :: int) < 5
      \<and> \<not> f 1 * f (3/2) < 0 \<and> f (3/2) * f 2 < 0
      \<and> (\<exists>s'. secant_body f 5 (1 / 10 ^ 7) False (initial 1 2) = Continue s'
             \<and> a_next s' = 3/2 \<and> b_next s' = 2))
   \<and> (f (3/2) \<noteq> f (- 2) \<and> \<not> spec_stop f (1 / 10 ^ 7) (- 2, 3/2)
      \<and> f (- 2) * f (4/3) < 0
      \<and> (\<exists>s'. secant_body f 5 (1 / 10 ^ 7) False (initial (- 2) (3/2)) = Continue s'
             \<and> a_next s' = - 2 \<and> b_next s' = 4/3))
   \<and> (g 1 \<noteq> g 0 \<and> \<not> spec_stop g 0 (0, 1)
      \<and> \<not> g 0 * g (1/2) < 0 \<and> \<not> g (1/2) * g 1 < 0
      \<and> secant_loop g 5 0 False (initial 0 1) =
          \<lparr>completion = Returned (Estimate (1/2)), printed = [],
           evaluated = [0, 1, 0, 1, 0, 1/2, 1/2, 0, 1], iterated = [(0, 1)]\<rparr>)"
proof -
  have c: "spec_c f (1, 2) = 3/2" "spec_c f (- 2, 3/2) = 4/3" "spec_c g (0, 1) = 1/2"
    by (simp_all add: spec_c_def spec_dx_def f_def g_def power2_eq_square)
  have n: "f 2 \<noteq> f 1" "f (3/2) \<noteq> f (- 2)" "g 1 \<noteq> g 0"
    by (simp_all add: f_def g_def power2_eq_square)
  have t: "\<not> spec_stop f (1 / 10 ^ 7) (1, 2)" "\<not> spec_stop f (1 / 10 ^ 7) (- 2, 3/2)"
    "\<not> spec_stop g 0 (0, 1)"
    by (simp_all add: spec_stop_def spec_x_error_def spec_y_error_def spec_dx_def c f_def g_def
        power2_eq_square)
  have m: "(0 :: int) < 5"
    by simp
  have s: "\<not> f 1 * f (3/2) < 0" "f (3/2) * f 2 < 0" "f (- 2) * f (4/3) < 0"
    "\<not> g 0 * g (1/2) < 0" "\<not> g (1/2) * g 1 < 0"
    by (simp_all add: f_def g_def power2_eq_square)
  have w1: "\<exists>s'. secant_body f 5 (1 / 10 ^ 7) False (initial 1 2) = Continue s'
             \<and> a_next s' = 3/2 \<and> b_next s' = 2"
    using secant_next_pair [of f "initial 1 2" "1 / 10 ^ 7" 5 False] n(1) t(1) s(1,2)
    by (simp add: initial_def c)
  have w2: "\<exists>s'. secant_body f 5 (1 / 10 ^ 7) False (initial (- 2) (3/2)) = Continue s'
             \<and> a_next s' = - 2 \<and> b_next s' = 4/3"
    using secant_next_pair [of f "initial (- 2) (3/2)" "1 / 10 ^ 7" 5 False] n(2) t(2) s(3)
    by (simp add: initial_def c)
  have w3: "secant_loop g 5 0 False (initial 0 1) =
          \<lparr>completion = Returned (Estimate (1/2)), printed = [],
           evaluated = [0, 1, 0, 1, 0, 1/2, 1/2, 0, 1], iterated = [(0, 1)]\<rparr>"
    using secant_next_pair [of g "initial 0 1" 0 5 False] n(3) t(3) s(4,5)
    by (simp add: initial_def c returned_value_def)
  from n t m s w1 w2 w3 show ?thesis
    by blast
qed

text \<open>
  C5. For \<open>f(a) * f(b) < 0\<close> and \<open>max_iterations \<ge> 0\<close> (and any tolerance) the call
  returns a value, after at least one and at most \<open>max_iterations + 1\<close> passes through
  the loop body. The loop itself is a total function: its termination is proved with the
  measure \<open>max_iterations - num_iterations\<close>.
\<close>

theorem secant_terminates_within_bound:
  assumes "func a * func b < 0" and "0 \<le> max_iterations"
  shows "(\<exists>v. completion (secant func [a, b] max_iterations tolerance report_history) = Returned v)
    \<and> 1 \<le> length (iterated (secant func [a, b] max_iterations tolerance report_history))
    \<and> int (length (iterated (secant func [a, b] max_iterations tolerance report_history)))
        \<le> max_iterations + 1"
proof -
  let ?r = "secant func [a, b] max_iterations tolerance report_history"
  have post: "run_post func max_iterations tolerance report_history ?r"
    using assms(1) by (rule secant_post)
  then have "iterated ?r \<noteq> []"
    by (simp add: run_post_def)
  then have "1 \<le> length (iterated ?r)"
    by (cases "iterated ?r") simp_all
  moreover have "int (length (iterated ?r)) \<le> max_iterations + 1"
    using post assms(2) by (simp add: run_post_def)
  moreover have "\<exists>v. completion ?r = Returned v"
    using post by (simp add: run_post_def)
  ultimately show ?thesis
    by blast
qed

theorem secant_terminates_within_bound_witness:
  "f 1 * f 2 < 0 \<and> (0 :: int) \<le> 5
   \<and> completion (secant f [1, 2] 5 (1 / 10 ^ 7) False) = Returned (Estimate (377 / 233))
   \<and> length (iterated (secant f [1, 2] 5 (1 / 10 ^ 7) False)) = 6
   \<and> int (length (iterated (secant f [1, 2] 5 (1 / 10 ^ 7) False))) \<le> 5 + 1"
proof -
  have h: "f 1 * f 2 < 0"
    by (simp add: f_def)
  have m: "(0 :: int) \<le> 5"
    by simp
  from secant_terminates_within_bound [of f 1 2 5 "1 / 10 ^ 7" False, OF h m] h m
  show ?thesis
    unfolding run_f_5 by simp
qed

text \<open>
  C6. A call with \<open>report_history = True\<close> that returns, returns a pair \<open>(c, history)\<close>
  in which each of the three lists has one entry per iteration performed.
\<close>

theorem secant_history_length:
  assumes "completion (secant func interval max_iterations tolerance True) = Returned v"
  shows "\<exists>c h. v = Estimate_history c h
    \<and> length (estimation h)
        = length (iterated (secant func interval max_iterations tolerance True))
    \<and> length (x_error h)
        = length (iterated (secant func interval max_iterations tolerance True))
    \<and> length (y_error h)
        = length (iterated (secant func interval max_iterations tolerance True))"
  using secant_returned_post [OF assms] assms
  by (simp add: run_post_def history_of_def returned_value_def)

theorem secant_history_length_witness:
  "completion (secant f [1, 2] 1 (1 / 10 ^ 7) True) = Returned (Estimate_history (8/5)
     \<lparr>estimation = [3/2, 8/5], x_error = [1/2, 1/10], y_error = [1/4, 1/25]\<rparr>)
   \<and> length (iterated (secant f [1, 2] 1 (1 / 10 ^ 7) True)) = 2
   \<and> length [3/2, 8/5 :: real] = 2 \<and> length [1/2, 1/10 :: real] = 2
   \<and> length [1/4, 1/25 :: real] = 2"
proof -
  have c: "completion (secant f [1, 2] 1 (1 / 10 ^ 7) True) = Returned (Estimate_history (8/5)
     \<lparr>estimation = [3/2, 8/5], x_error = [1/2, 1/10], y_error = [1/4, 1/25]\<rparr>)"
    unfolding run_f_1 by simp
  from secant_history_length [OF c] c show ?thesis
    unfolding run_f_1 by simp
qed



text \<open>
  C9, as stated, fails: on \<open>f\<close> and \<open>[-2, 3/2]\<close> with \<open>max_iterations = 1\<close> the
  trace of \<open>y_error\<close> is \<open>[5/9, 1]\<close>, so the final entry is not the smallest.
\<close>

theorem secant_final_error_not_least:
  "completion (secant f [- 2, 3/2] 1 (1 / 10 ^ 7) True) = Returned (Estimate_history 1
     \<lparr>estimation = [4/3, 1], x_error = [10/3, 3], y_error = [5/9, 1]\<rparr>)
   \<and> \<not> ((1 :: real) \<le> 5/9)"
  unfolding run_f_wide by simp

text \<open>
  C9, amended. In a call with \<open>report_history = True\<close> that ends by the stopping rule,
  the smaller of the final \<open>x_error\<close> and \<open>y_error\<close> is below the tolerance, and both
  errors of every earlier entry are at least the tolerance; so the smaller final error is
  strictly below every earlier error of either trace.
\<close>

theorem secant_final_errors:
  assumes "completion (secant func interval max_iterations tolerance True)
             = Returned (Estimate_history c h)"
    and "printed (secant func interval max_iterations tolerance True) = [found_line n]"
  shows "x_error h \<noteq> [] \<and> length (y_error h) = length (x_error h)
    \<and> min (last (x_error h)) (last (y_error h)) < tolerance
    \<and> (\<forall>i. i + 1 < length (x_error h) \<longrightarrow>
          tolerance \<le> x_error h ! i \<and> tolerance \<le> y_error h ! i)"
proof -
  let ?ps = "iterated (secant func interval max_iterations tolerance True)"
  have post: "run_post func max_iterations tolerance True
                (secant func interval max_iterations tolerance True)"
    using assms(1) by (rule secant_returned_post)
  have ne: "?ps \<noteq> []"
    using post by (simp add: run_post_def)
  have h: "h = history_of func ?ps"
    using post assms(1) by (simp add: run_post_def returned_value_def)
  have stop: "spec_stop func tolerance (last ?ps)"
    using post assms(2) by (auto simp: run_post_def found_line_neq split: if_splits)
  have early: "\<not> spec_stop func tolerance (?ps ! i)" if "i + 1 < length ?ps" for i
  proof -
    have "?ps ! i = butlast ?ps ! i"
      using that by (simp add: nth_butlast)
    moreover have "butlast ?ps ! i \<in> set (butlast ?ps)"
      using that by (intro nth_mem) simp
    ultimately show ?thesis
      using post by (simp add: run_post_def)
  qed
  have "min (last (x_error h)) (last (y_error h)) < tolerance"
    using stop ne by (auto simp: h history_of_def last_map spec_stop_def)
  moreover have "tolerance \<le> x_error h ! i \<and> tolerance \<le> y_error h ! i"
    if "i + 1 < length (x_error h)" for i
    using early [of i] that by (auto simp: h history_of_def spec_stop_def)
  ultimately show ?thesis
    using ne by (simp add: h history_of_def)
qed

theorem secant_final_errors_witness:
  "completion (secant f [1, 2] 5 (1 / 10) True) = Returned (Estimate_history (8/5)
     \<lparr>estimation = [3/2, 8/5], x_error = [1/2, 1/10], y_error = [1/4, 1/25]\<rparr>)
   \<and> printed (secant f [1, 2] 5 (1 / 10) True) = [found_line 1]
   \<and> min (1/10 :: real) (1/25) < 1/10
   \<and> (1/10 :: real) \<le> 1/2 \<and> (1/10 :: real) \<le> 1/4"
proof -
  have c: "completion (secant f [1, 2] 5 (1 / 10) True) = Returned (Estimate_history (8/5)
     \<lparr>estimation = [3/2, 8/5], x_error = [1/2, 1/10], y_error = [1/4, 1/25]\<rparr>)"
    unfolding run_f_found_history by simp
  have p: "printed (secant f [1, 2] 5 (1 / 10) True) = [found_line 1]"
    unfolding run_f_found_history by (simp add: found_line_def)
  from secant_final_errors [OF c p] c p show ?thesis
    by simp
qed

text \<open>
  C10. At every entry of the loop body the current pair satisfies
  \<open>f(a_next) * f(b_next) < 0\<close>: the first pair by the assertion, each later one by the
  sign test that selected it.
\<close>

theorem secant_bracket_invariant:
  "\<forall>p \<in> set (iterated (secant func interval max_iterations tolerance report_history)).
     func (fst p) * func (snd p) < 0"
proof (cases "\<exists>a b. interval = [a, b] \<and> func a * func b < 0")
  case True
  then show ?thesis
    using secant_post [of func _ _ max_iterations tolerance report_history]
    by (auto simp: run_post_def)
next
  case False
  then have "iterated (secant func interval max_iterations tolerance report_history) = []"
    by (auto simp: secant_def split: list.splits)
  then show ?thesis
    by simp
qed

theorem secant_bracket_invariant_witness:
  "iterated (secant f [1, 2] 5 (1 / 10 ^ 7) False)
     = [(1, 2), (3 / 2, 2), (8 / 5, 2), (21 / 13, 2), (55 / 34, 2), (144 / 89, 2)]
   \<and> f 1 * f 2 < 0 \<and> f (3 / 2) * f 2 < 0 \<and> f (8 / 5) * f 2 < 0
   \<and> f (21 / 13) * f 2 < 0 \<and> f (55 / 34) * f 2 < 0 \<and> f (144 / 89) * f 2 < 0"
  using secant_bracket_invariant [of f "[1, 2]" 5 "1 / 10 ^ 7" False]
  unfolding run_f_5 by simp

end
